theory Spec2Isabelle
  imports Main "HOL-Library.AList"
begin

section \<open>Data model\<close>

text \<open>
  \<^verbatim>\<open>app/models/enums.py\<close>: \<^verbatim>\<open>OrderStatus(str, enum.Enum)\<close> with the three members
  PENDING, SHIPPED, CANCELLED. \<open>status_value\<close> is the member's \<^verbatim>\<open>.value\<close>;
  \<open>OrderStatus_of\<close> is the constructor call \<^verbatim>\<open>OrderStatus(s)\<close>, whose \<^verbatim>\<open>ValueError\<close>
  on an unknown string is the result \<open>None\<close>.
\<close>

datatype OrderStatus = PENDING | SHIPPED | CANCELLED

fun status_value :: "OrderStatus \<Rightarrow> string" where
  "status_value PENDING = ''pending''"
| "status_value SHIPPED = ''shipped''"
| "status_value CANCELLED = ''cancelled''"

definition OrderStatus_of :: "string \<Rightarrow> OrderStatus option" where
  "OrderStatus_of s =
     (if s = ''pending'' then Some PENDING
      else if s = ''shipped'' then Some SHIPPED
      else if s = ''cancelled'' then Some CANCELLED
      else None)"

text \<open>
  \<^verbatim>\<open>app/exceptions.py\<close>, one constructor per exception class with the arguments of its
  \<^verbatim>\<open>__init__\<close>. \<open>KeyError\<close> is Python's own, raised by a dictionary lookup
  \<^verbatim>\<open>products[k]\<close> on a missing key. \<open>RequestValidationError\<close> is what the request
  layer answers when the body does not fit the pydantic schema of the endpoint.
\<close>

datatype error =
    ProductNotFoundError int
  | OrderNotFoundError int
  | InsufficientStockError int int int
  | InvalidStatusTransitionError string string
  | EmptyOrderError
  | KeyError int
  | RequestValidationError

text \<open>
  \<^verbatim>\<open>app/models/product.py\<close>: a row of table \<^verbatim>\<open>products\<close>. The primary key \<^verbatim>\<open>id\<close> is the
  key under which the row is stored in the table (a map from id to row), so a key
  names at most one row. \<^verbatim>\<open>price\<close> is \<^verbatim>\<open>Numeric(10, 2)\<close>, held here as a count of
  hundredths. Python integers are unbounded: \<open>int\<close>.
\<close>

record product =
  name :: string
  price :: int
  stock_quantity :: int

text \<open>\<^verbatim>\<open>app/schemas/order.py\<close>, \<^verbatim>\<open>OrderItemCreate\<close>: one requested line.
  \<^verbatim>\<open>OrderCreate\<close> has the single field \<^verbatim>\<open>items\<close>; it is the list of lines itself.\<close>

record order_item_create =
  product_id :: int
  quantity :: int

text \<open>\<^verbatim>\<open>app/models/order.py\<close>, \<^verbatim>\<open>OrderItem\<close>: a row of table \<^verbatim>\<open>order_items\<close>.\<close>

record order_item =
  item_id :: int
  order_id :: int
  item_product_id :: int
  item_quantity :: int
  price_at_order :: int

text \<open>
  \<^verbatim>\<open>Order\<close> as the service returns it after \<^verbatim>\<open>db.refresh(order)\<close>: its id, its status
  column (a string) and the \<^verbatim>\<open>items\<close> relationship, the rows of \<^verbatim>\<open>order_items\<close> whose
  \<^verbatim>\<open>order_id\<close> is this order's id. \<^verbatim>\<open>created_at\<close> is set by the server and never read
  by the service; it is left out.
\<close>

record order =
  order_pk :: int
  status :: string
  items :: "order_item list"

text \<open>
  The database as one session sees it: the three tables and the next value of each
  table's id sequence. \<open>orders\<close> maps an order id to its status column.
\<close>

record db =
  products :: "int \<rightharpoonup> product"
  orders :: "int \<rightharpoonup> string"
  order_items :: "order_item list"
  next_product_id :: int
  next_order_id :: int
  next_item_id :: int

section \<open>Order status machine\<close>

text \<open>\<^verbatim>\<open>order_service.py\<close> lines 21--25: the dictionary \<^verbatim>\<open>VALID_TRANSITIONS\<close>.\<close>

definition VALID_TRANSITIONS :: "OrderStatus \<rightharpoonup> OrderStatus set" where
  "VALID_TRANSITIONS =
     [PENDING \<mapsto> {SHIPPED, CANCELLED}, SHIPPED \<mapsto> {}, CANCELLED \<mapsto> {}]"

text \<open>The \<^verbatim>\<open>items\<close> relationship of an order, loaded from the table.\<close>

definition load_items :: "db \<Rightarrow> int \<Rightarrow> order_item list" where
  "load_items d oid = filter (\<lambda>i. order_id i = oid) (order_items d)"

text \<open>
  \<^verbatim>\<open>OrderService.update_order_status\<close> (lines 147--193). The result is the database
  the session leaves behind together with the returned order or the raised error.
  \<^verbatim>\<open>dict.get(current_status, set())\<close> is the lookup with the empty set as default.
  The error carries \<^verbatim>\<open>order.status\<close>, the stored string, not the parsed member.
\<close>

definition update_order_status :: "db \<Rightarrow> int \<Rightarrow> OrderStatus \<Rightarrow> db \<times> (error + order)" where
  "update_order_status d oid new_status =
     (case orders d oid of
        None \<Rightarrow> (d, Inl (OrderNotFoundError oid))
      | Some st \<Rightarrow>
          (let current_status = (case OrderStatus_of st of None \<Rightarrow> PENDING | Some s \<Rightarrow> s);
               allowed_transitions =
                 (case VALID_TRANSITIONS current_status of None \<Rightarrow> {} | Some a \<Rightarrow> a)
           in if new_status \<notin> allowed_transitions
              then (d, Inl (InvalidStatusTransitionError st (status_value new_status)))
              else (let d' = d\<lparr>orders := (orders d)(oid \<mapsto> status_value new_status)\<rparr>
                    in (d', Inr \<lparr>order_pk = oid, status = status_value new_status,
                                items = load_items d' oid\<rparr>))))"

text \<open>
  \<^verbatim>\<open>OrderService.get_order\<close> (lines 118--144): the order with its items, or
  \<^verbatim>\<open>OrderNotFoundError\<close>.
\<close>

definition get_order :: "db \<Rightarrow> int \<Rightarrow> error + order" where
  "get_order d oid =
     (case orders d oid of
        None \<Rightarrow> Inl (OrderNotFoundError oid)
      | Some st \<Rightarrow> Inr \<lparr>order_pk = oid, status = st, items = load_items d oid\<rparr>)"

section \<open>Order transaction engine\<close>

text \<open>
  \<^verbatim>\<open>OrderService.create_order\<close>, lines 56--61. \<^verbatim>\<open>product_quantities\<close> is a Python
  dictionary: it keeps its keys in the order of their first insertion, and an update
  of a key that is present keeps the key's place. It is an association list with
  distinct keys, in insertion order. One pass of the loop body is \<open>add_quantity\<close>.
\<close>

definition add_quantity :: "order_item_create \<Rightarrow> (int \<times> int) list \<Rightarrow> (int \<times> int) list" where
  "add_quantity item pq =
     (case map_of pq (product_id item) of
        Some q \<Rightarrow> AList.update (product_id item) (q + quantity item) pq
      | None \<Rightarrow> AList.update (product_id item) (quantity item) pq)"

fun aggregate :: "order_item_create list \<Rightarrow> (int \<times> int) list \<Rightarrow> (int \<times> int) list" where
  "aggregate [] pq = pq"
| "aggregate (item # rest) pq = aggregate rest (add_quantity item pq)"

definition product_quantities :: "order_item_create list \<Rightarrow> (int \<times> int) list" where
  "product_quantities lines = aggregate lines []"

text \<open>Line 63: \<^verbatim>\<open>product_ids = list(product_quantities.keys())\<close>.\<close>

definition product_ids :: "order_item_create list \<Rightarrow> int list" where
  "product_ids lines = map fst (product_quantities lines)"

text \<open>
  Lines 67--74: \<^verbatim>\<open>select(Product).where(Product.id.in_(product_ids)).with_for_update()\<close>
  and the dictionary \<^verbatim>\<open>{p.id: p for p in ...}\<close> built from its rows: the rows of the
  table whose id is in the list, by id. The statement has no \<^verbatim>\<open>order_by\<close>; the list
  \<open>product_ids\<close> is all the source says about which rows are locked and in what order
  they are named.
\<close>

definition select_for_update :: "db \<Rightarrow> int list \<Rightarrow> (int \<rightharpoonup> product)" where
  "select_for_update d ids = (\<lambda>k. if k \<in> set ids then products d k else None)"

text \<open>Lines 77--79: the first id of the list with no row raises.\<close>

fun validate_exist :: "(int \<rightharpoonup> product) \<Rightarrow> int list \<Rightarrow> error option" where
  "validate_exist ps [] = None"
| "validate_exist ps (k # rest) =
     (if ps k = None then Some (ProductNotFoundError k) else validate_exist ps rest)"

text \<open>Lines 83--90: the first product, in dictionary order, whose stock is below the
  aggregated quantity raises. \<^verbatim>\<open>products[product_id]\<close> on a missing key is a KeyError.\<close>

fun validate_stock :: "(int \<rightharpoonup> product) \<Rightarrow> (int \<times> int) list \<Rightarrow> error option" where
  "validate_stock ps [] = None"
| "validate_stock ps ((k, q) # rest) =
     (case ps k of
        None \<Rightarrow> Some (KeyError k)
      | Some p \<Rightarrow>
          if stock_quantity p < q
          then Some (InsufficientStockError k (stock_quantity p) q)
          else validate_stock ps rest)"

text \<open>
  Lines 98--111, the loop over the original lines. The loaded products are objects of
  the session: the loop changes their \<^verbatim>\<open>stock_quantity\<close> in place and reads their
  \<^verbatim>\<open>price\<close>, so the loop's state is the dictionary of loaded rows and the list of
  order items added so far. Item ids come from the table's sequence, one per added
  row, starting at \<open>nid\<close>.
\<close>

fun place_items ::
  "int \<Rightarrow> int \<Rightarrow> order_item_create list \<Rightarrow> (int \<rightharpoonup> product) \<times> order_item list
     \<Rightarrow> error + (int \<rightharpoonup> product) \<times> order_item list" where
  "place_items oid nid [] s = Inr s"
| "place_items oid nid (item # rest) (ps, added) =
     (case ps (product_id item) of
        None \<Rightarrow> Inl (KeyError (product_id item))
      | Some p \<Rightarrow>
          place_items oid nid rest
            (ps(product_id item \<mapsto> p\<lparr>stock_quantity := stock_quantity p - quantity item\<rparr>),
             added @ [\<lparr>item_id = nid + int (length added), order_id = oid,
                       item_product_id = product_id item, item_quantity = quantity item,
                       price_at_order = price p\<rparr>]))"

text \<open>
  \<^verbatim>\<open>OrderService.create_order\<close> (lines 32--116). The result is the database as the
  session leaves it, with the returned order or the raised error. An error raised by
  validation leaves before anything was written. \<open>flush\<close> (line 95) inserts the order
  row and draws its id; \<open>commit\<close> (line 113) writes the changed product rows and the new
  item rows; \<open>refresh\<close> (line 114) reloads the order with its items.
\<close>

definition create_order :: "db \<Rightarrow> order_item_create list \<Rightarrow> db \<times> (error + order)" where
  "create_order d lines =
     (let pq = product_quantities lines;
          ids = map fst pq;
          loaded = select_for_update d ids
      in case validate_exist loaded ids of
           Some e \<Rightarrow> (d, Inl e)
         | None \<Rightarrow>
             (case validate_stock loaded pq of
                Some e \<Rightarrow> (d, Inl e)
              | None \<Rightarrow>
                  (let oid = next_order_id d;
                       d1 = d\<lparr>orders := (orders d)(oid \<mapsto> status_value PENDING),
                               next_order_id := oid + 1\<rparr>
                   in case place_items oid (next_item_id d1) lines (loaded, []) of
                        Inl e \<Rightarrow> (d1, Inl e)
                      | Inr (ps, added) \<Rightarrow>
                          (let d2 = d1\<lparr>products := products d1 ++ ps,
                                       order_items := order_items d1 @ added,
                                       next_item_id := next_item_id d1 + int (length added)\<rparr>
                           in (d2, Inr \<lparr>order_pk = oid, status = status_value PENDING,
                                        items = load_items d2 oid\<rparr>)))))"

text \<open>
  The request layer. \<^verbatim>\<open>app/schemas/order.py\<close>: \<^verbatim>\<open>OrderItemCreate\<close> declares
  \<^verbatim>\<open>product_id\<close> and \<^verbatim>\<open>quantity\<close> with \<^verbatim>\<open>gt=0\<close>, and \<^verbatim>\<open>OrderCreate.items\<close> with
  \<^verbatim>\<open>min_length=1\<close>. \<^verbatim>\<open>app/routers/orders.py\<close>, \<^verbatim>\<open>create_order\<close>: the body is parsed
  into an \<^verbatim>\<open>OrderCreate\<close> before the handler runs, and a body that does not fit is
  answered with a validation error without calling the service.
\<close>

definition OrderItemCreate_valid :: "order_item_create \<Rightarrow> bool" where
  "OrderItemCreate_valid item \<longleftrightarrow> 0 < product_id item \<and> 0 < quantity item"

definition OrderCreate_valid :: "order_item_create list \<Rightarrow> bool" where
  "OrderCreate_valid lines \<longleftrightarrow> 1 \<le> length lines \<and> list_all OrderItemCreate_valid lines"

definition post_orders :: "db \<Rightarrow> order_item_create list \<Rightarrow> db \<times> (error + order)" where
  "post_orders d lines =
     (if OrderCreate_valid lines then create_order d lines
      else (d, Inl RequestValidationError))"

text \<open>
  \<^verbatim>\<open>ProductService.create_product\<close> (\<^verbatim>\<open>product_service.py\<close> lines 15--34): a new row
  with the next id of the sequence. \<^verbatim>\<open>ProductCreate\<close> has the fields of a product row.
\<close>

definition create_product :: "db \<Rightarrow> product \<Rightarrow> db \<times> int" where
  "create_product d p =
     (d\<lparr>products := (products d)(next_product_id d \<mapsto> p),
        next_product_id := next_product_id d + 1\<rparr>, next_product_id d)"

text \<open>The sum of the quantities of the lines that name product \<open>k\<close>.\<close>

definition requested :: "order_item_create list \<Rightarrow> int \<Rightarrow> int" where
  "requested lines k = sum_list (map quantity (filter (\<lambda>i. product_id i = k) lines))"

text \<open>
  An order can be fulfilled from a database when every product it names has a row whose
  stock covers the sum of the quantities requested for it.
\<close>

definition fulfillable :: "db \<Rightarrow> order_item_create list \<Rightarrow> bool" where
  "fulfillable d lines \<longleftrightarrow>
     (\<forall>k\<in>product_id ` set lines. \<exists>p. products d k = Some p \<and> requested lines k \<le> stock_quantity p)"

text \<open>The products table after each product's stock went down by what the lines request
  of it (nothing, for a product no line names).\<close>

definition decremented :: "order_item_create list \<Rightarrow> (int \<rightharpoonup> product) \<Rightarrow> (int \<rightharpoonup> product)" where
  "decremented lines tbl =
     (\<lambda>k. map_option (\<lambda>p. p\<lparr>stock_quantity := stock_quantity p - requested lines k\<rparr>) (tbl k))"

section \<open>Histories\<close>

text \<open>
  Item rows refer to orders whose id the sequence has already handed out.
\<close>

definition db_consistent :: "db \<Rightarrow> bool" where
  "db_consistent d \<longleftrightarrow> (\<forall>i\<in>set (order_items d). order_id i < next_order_id d)"

text \<open>
  What can happen to the database after a call: the three writing operations of the
  services, and \<open>ProductsWritten\<close>, a write of the products table by any other
  component (the services have no operation that changes a price; this stands for one).
\<close>

datatype event =
    CreateOrder "order_item_create list"
  | UpdateOrderStatus int OrderStatus
  | CreateProduct product
  | ProductsWritten "int \<rightharpoonup> product"

fun step :: "db \<Rightarrow> event \<Rightarrow> db" where
  "step d (CreateOrder lines) = fst (create_order d lines)"
| "step d (UpdateOrderStatus oid s) = fst (update_order_status d oid s)"
| "step d (CreateProduct p) = fst (create_product d p)"
| "step d (ProductsWritten tbl) = d\<lparr>products := tbl\<rparr>"

fun run :: "db \<Rightarrow> event list \<Rightarrow> db" where
  "run d [] = d"
| "run d (ev # evs) = run (step d ev) evs"

text \<open>
  \<open>n\<close> calls of \<open>create_order\<close> one after another, each for one unit of product \<open>k\<close>,
  with the number of calls that succeeded.
\<close>

fun serial_orders :: "nat \<Rightarrow> int \<Rightarrow> db \<Rightarrow> db \<times> nat" where
  "serial_orders 0 k d = (d, 0)"
| "serial_orders (Suc n) k d =
     (case create_order d [\<lparr>product_id = k, quantity = 1\<rparr>] of
        (d', Inl e) \<Rightarrow> serial_orders n k d'
      | (d', Inr r) \<Rightarrow> (case serial_orders n k d' of (d'', c) \<Rightarrow> (d'', Suc c)))"

text \<open>The error of a failing call is the first one validation finds, and validation
  reads the lines only through the dictionary of aggregated quantities.\<close>

definition first_error :: "db \<Rightarrow> (int \<times> int) list \<Rightarrow> error option" where
  "first_error d pq =
     (case validate_exist (select_for_update d (map fst pq)) (map fst pq) of
        Some e \<Rightarrow> Some e
      | None \<Rightarrow> validate_stock (select_for_update d (map fst pq)) pq)"

text \<open>What later events keep of an order that exists: its id stays below the sequence,
  its row stays, and its item rows stay as they are.\<close>

definition kept :: "int \<Rightarrow> order_item list \<Rightarrow> db \<Rightarrow> bool" where
  "kept oid its d \<longleftrightarrow>
     db_consistent d \<and> oid < next_order_id d \<and> orders d oid \<noteq> None \<and> load_items d oid = its"

section \<open>Properties of the status machine\<close>

lemma OrderStatus_of_value: "OrderStatus_of (status_value s) = Some s"
  by (cases s) (simp_all add: OrderStatus_of_def)

lemma OrderStatus_of_Some: "OrderStatus_of st = Some s \<Longrightarrow> st = status_value s"
  by (auto simp: OrderStatus_of_def split: if_splits)

lemma allowed_PENDING: "VALID_TRANSITIONS PENDING = Some {SHIPPED, CANCELLED}"
  by (simp add: VALID_TRANSITIONS_def)

lemma allowed_SHIPPED: "VALID_TRANSITIONS SHIPPED = Some {}"
  by (simp add: VALID_TRANSITIONS_def)

lemma allowed_CANCELLED: "VALID_TRANSITIONS CANCELLED = Some {}"
  by (simp add: VALID_TRANSITIONS_def)

text \<open>
  Claim C3. For an existing order whose stored status is one of the three recognised
  values, \<open>update_order_status\<close> succeeds if and only if the pair (current, requested)
  is (Pending, Shipped) or (Pending, Cancelled), and then stores and returns the
  requested status; for every other pair, self-transitions and transitions out of
  Shipped or Cancelled included, it leaves the database as it was and fails with
  \<open>InvalidStatusTransitionError current requested\<close>.
\<close>

theorem update_order_status_table:
  assumes "orders d oid = Some (status_value cur)"
  shows "((\<exists>d' r. update_order_status d oid new = (d', Inr r))
            \<longleftrightarrow> (cur, new) \<in> {(PENDING, SHIPPED), (PENDING, CANCELLED)})
     \<and> ((cur, new) \<in> {(PENDING, SHIPPED), (PENDING, CANCELLED)} \<longrightarrow>
           orders (fst (update_order_status d oid new)) oid = Some (status_value new)
           \<and> map_sum id status (snd (update_order_status d oid new)) = Inr (status_value new))
     \<and> ((cur, new) \<notin> {(PENDING, SHIPPED), (PENDING, CANCELLED)} \<longrightarrow>
           update_order_status d oid new =
             (d, Inl (InvalidStatusTransitionError (status_value cur) (status_value new))))"
proof (cases cur)
  case PENDING
  then show ?thesis using assms
    by (cases new)
       (simp_all add: update_order_status_def OrderStatus_of_def allowed_PENDING Let_def)
next
  case SHIPPED
  then show ?thesis using assms
    by (simp add: update_order_status_def OrderStatus_of_def allowed_SHIPPED Let_def)
next
  case CANCELLED
  then show ?thesis using assms
    by (simp add: update_order_status_def OrderStatus_of_def allowed_CANCELLED Let_def)
qed

theorem update_order_status_table_witness:
  "orders \<lparr>products = Map.empty, orders = [7 \<mapsto> ''shipped'', 8 \<mapsto> ''pending''],
           order_items = [], next_product_id = 1, next_order_id = 9, next_item_id = 1\<rparr> 7
     = Some (status_value SHIPPED)
   \<and> (SHIPPED, SHIPPED) \<notin> {(PENDING, SHIPPED), (PENDING, CANCELLED)}
   \<and> update_order_status
        \<lparr>products = Map.empty, orders = [7 \<mapsto> ''shipped'', 8 \<mapsto> ''pending''],
           order_items = [], next_product_id = 1, next_order_id = 9, next_item_id = 1\<rparr> 7 SHIPPED
     = (\<lparr>products = Map.empty, orders = [7 \<mapsto> ''shipped'', 8 \<mapsto> ''pending''],
           order_items = [], next_product_id = 1, next_order_id = 9, next_item_id = 1\<rparr>,
        Inl (InvalidStatusTransitionError ''shipped'' ''shipped''))
   \<and> orders \<lparr>products = Map.empty, orders = [7 \<mapsto> ''shipped'', 8 \<mapsto> ''pending''],
           order_items = [], next_product_id = 1, next_order_id = 9, next_item_id = 1\<rparr> 8
     = Some (status_value PENDING)
   \<and> (PENDING, CANCELLED) \<in> {(PENDING, SHIPPED), (PENDING, CANCELLED)}
   \<and> orders (fst (update_order_status
        \<lparr>products = Map.empty, orders = [7 \<mapsto> ''shipped'', 8 \<mapsto> ''pending''],
           order_items = [], next_product_id = 1, next_order_id = 9, next_item_id = 1\<rparr> 8 CANCELLED)) 8
     = Some ''cancelled''"
  using update_order_status_table
    [of "\<lparr>products = Map.empty, orders = [7 \<mapsto> ''shipped'', 8 \<mapsto> ''pending''],
           order_items = [], next_product_id = 1, next_order_id = 9, next_item_id = 1\<rparr>"
        7 SHIPPED SHIPPED]
    update_order_status_table
    [of "\<lparr>products = Map.empty, orders = [7 \<mapsto> ''shipped'', 8 \<mapsto> ''pending''],
           order_items = [], next_product_id = 1, next_order_id = 9, next_item_id = 1\<rparr>"
        8 PENDING CANCELLED]
  by simp

text \<open>
  Claim C10. For an existing order whose stored status string is none of
  \<open>pending\<close>, \<open>shipped\<close>, \<open>cancelled\<close>, the status is read as Pending: a request for
  Shipped or Cancelled succeeds and stores the new status, and a request for Pending
  fails with \<open>InvalidStatusTransitionError\<close> (carrying the stored string) and changes
  nothing.
\<close>

theorem update_order_status_unknown_status:
  assumes "orders d oid = Some st" and "OrderStatus_of st = None"
  shows "(if new = PENDING
          then update_order_status d oid new =
                 (d, Inl (InvalidStatusTransitionError st (status_value PENDING)))
          else \<exists>d' r. update_order_status d oid new = (d', Inr r)
                 \<and> orders d' oid = Some (status_value new)
                 \<and> status r = status_value new)"
  using assms
  by (cases new) (simp_all add: update_order_status_def allowed_PENDING Let_def)

theorem update_order_status_unknown_status_witness:
  "orders \<lparr>products = Map.empty, orders = [7 \<mapsto> ''lost''], order_items = [],
           next_product_id = 1, next_order_id = 8, next_item_id = 1\<rparr> 7 = Some ''lost''
   \<and> OrderStatus_of ''lost'' = None
   \<and> (\<exists>d' r. update_order_status
        \<lparr>products = Map.empty, orders = [7 \<mapsto> ''lost''], order_items = [],
           next_product_id = 1, next_order_id = 8, next_item_id = 1\<rparr> 7 SHIPPED = (d', Inr r)
        \<and> orders d' 7 = Some ''shipped'' \<and> status r = ''shipped'')"
  using update_order_status_unknown_status
    [of "\<lparr>products = Map.empty, orders = [7 \<mapsto> ''lost''], order_items = [],
           next_product_id = 1, next_order_id = 8, next_item_id = 1\<rparr>" 7 "''lost''" SHIPPED]
  by (simp add: OrderStatus_of_def)

section \<open>The aggregation loop\<close>

lemma map_of_add_quantity:
  "map_of (add_quantity item pq) =
     (map_of pq)(product_id item \<mapsto>
        (case map_of pq (product_id item) of None \<Rightarrow> quantity item | Some q \<Rightarrow> q + quantity item))"
  by (simp add: add_quantity_def AList.update_conv' split: option.splits)

lemma keys_add_quantity:
  "fst ` set (add_quantity item pq) = insert (product_id item) (fst ` set pq)"
  by (simp add: add_quantity_def AList.dom_update split: option.splits)

lemma distinct_add_quantity:
  "distinct (map fst pq) \<Longrightarrow> distinct (map fst (add_quantity item pq))"
  by (simp add: add_quantity_def AList.distinct_update split: option.splits)

lemma distinct_aggregate:
  "distinct (map fst pq) \<Longrightarrow> distinct (map fst (aggregate lines pq))"
  by (induction lines arbitrary: pq) (simp_all add: distinct_add_quantity)

lemma keys_aggregate:
  "fst ` set (aggregate lines pq) = fst ` set pq \<union> product_id ` set lines"
  by (induction lines arbitrary: pq) (auto simp: keys_add_quantity)

lemma requested_Nil: "requested [] k = 0"
  by (simp add: requested_def)

lemma requested_Cons:
  "requested (item # rest) k = (if product_id item = k then quantity item else 0) + requested rest k"
  by (simp add: requested_def)

lemma requested_unreferenced: "k \<notin> product_id ` set lines \<Longrightarrow> requested lines k = 0"
  by (induction lines) (auto simp: requested_Nil requested_Cons)

lemma map_of_aggregate:
  "map_of (aggregate lines pq) k =
     (if k \<in> product_id ` set lines
      then Some ((case map_of pq k of None \<Rightarrow> 0 | Some q \<Rightarrow> q) + requested lines k)
      else map_of pq k)"
proof (induction lines arbitrary: pq)
  case Nil
  then show ?case by simp
next
  case (Cons item rest)
  show ?case
    by (simp add: Cons.IH map_of_add_quantity requested_Cons requested_unreferenced
          split: option.splits)
qed

lemma map_of_product_quantities:
  "map_of (product_quantities lines) k =
     (if k \<in> product_id ` set lines then Some (requested lines k) else None)"
  by (simp add: product_quantities_def map_of_aggregate)

lemma set_product_ids: "set (product_ids lines) = product_id ` set lines"
  by (simp add: product_ids_def product_quantities_def keys_aggregate)

lemma distinct_product_ids: "distinct (product_ids lines)"
  by (simp add: product_ids_def product_quantities_def distinct_aggregate)

lemma in_product_quantities:
  "(k, q) \<in> set (product_quantities lines) \<longleftrightarrow>
     k \<in> product_id ` set lines \<and> q = requested lines k"
proof -
  have "distinct (map fst (product_quantities lines))"
    using distinct_product_ids by (simp add: product_ids_def)
  then have "(k, q) \<in> set (product_quantities lines) \<longleftrightarrow>
               map_of (product_quantities lines) k = Some q"
    by simp
  then show ?thesis by (auto simp: map_of_product_quantities)
qed

section \<open>Validation and the item loop\<close>

lemma validate_exist_None:
  "validate_exist ps ids = None \<longleftrightarrow> (\<forall>k\<in>set ids. ps k \<noteq> None)"
  by (induction ids) auto

lemma validate_exist_Some:
  "validate_exist ps ids = Some e \<Longrightarrow> \<exists>k\<in>set ids. ps k = None \<and> e = ProductNotFoundError k"
  by (induction ids) (auto split: if_splits)

lemma validate_stock_None:
  "validate_stock ps pq = None \<longleftrightarrow>
     (\<forall>(k, q)\<in>set pq. \<exists>p. ps k = Some p \<and> q \<le> stock_quantity p)"
  by (induction ps pq rule: validate_stock.induct) (auto split: option.splits)

lemma validate_stock_Some:
  "validate_stock ps pq = Some e \<Longrightarrow> \<forall>k\<in>fst ` set pq. ps k \<noteq> None \<Longrightarrow>
     \<exists>(k, q)\<in>set pq. \<exists>p. ps k = Some p \<and> stock_quantity p < q
        \<and> e = InsufficientStockError k (stock_quantity p) q"
  by (induction ps pq rule: validate_stock.induct) (auto split: option.splits if_splits)

lemma select_for_update_ids:
  "select_for_update d (product_ids lines) k =
     (if k \<in> product_id ` set lines then products d k else None)"
  by (simp add: select_for_update_def set_product_ids)

lemma place_items_total:
  "\<forall>i\<in>set lines. ps (product_id i) \<noteq> None \<Longrightarrow>
     \<exists>ps' added'. place_items oid nid lines (ps, added) = Inr (ps', added')"
proof (induction lines arbitrary: ps added)
  case Nil
  then show ?case by simp
next
  case (Cons item rest)
  from Cons.prems obtain p where p: "ps (product_id item) = Some p" by auto
  let ?ps = "ps(product_id item \<mapsto> p\<lparr>stock_quantity := stock_quantity p - quantity item\<rparr>)"
  have "\<forall>i\<in>set rest. ?ps (product_id i) \<noteq> None" using Cons.prems by auto
  then have "\<exists>ps' added'. place_items oid nid rest
      (?ps, added @ [\<lparr>item_id = nid + int (length added), order_id = oid,
                       item_product_id = product_id item, item_quantity = quantity item,
                       price_at_order = price p\<rparr>]) = Inr (ps', added')"
    by (rule Cons.IH)
  then show ?case using p by simp
qed

lemma place_items_stock:
  "place_items oid nid lines (ps, added) = Inr (ps', added') \<Longrightarrow>
     ps' k = map_option (\<lambda>p. p\<lparr>stock_quantity := stock_quantity p - requested lines k\<rparr>) (ps k)"
proof (induction lines arbitrary: ps added)
  case Nil
  then show ?case by (simp add: requested_Nil option.map_ident)
next
  case (Cons item rest)
  from Cons.prems obtain p where p: "ps (product_id item) = Some p"
    by (auto split: option.splits)
  let ?ps = "ps(product_id item \<mapsto> p\<lparr>stock_quantity := stock_quantity p - quantity item\<rparr>)"
  from Cons.prems p have "place_items oid nid rest
      (?ps, added @ [\<lparr>item_id = nid + int (length added), order_id = oid,
                       item_product_id = product_id item, item_quantity = quantity item,
                       price_at_order = price p\<rparr>]) = Inr (ps', added')"
    by simp
  from Cons.IH [OF this] show ?case using p
    by (cases "ps k") (auto simp: requested_Cons)
qed

lemma upt_shift: "[a..<a + Suc n] = a # [Suc a..<Suc a + n]"
proof -
  have "[a..<a + Suc n] = a # [Suc a..<a + Suc n]" by (rule upt_conv_Cons) simp
  then show ?thesis by simp
qed

lemma place_items_added:
  "place_items oid nid lines (ps, added) = Inr (ps', added') \<Longrightarrow>
     \<exists>new. added' = added @ new
       \<and> map item_quantity new = map quantity lines
       \<and> map item_product_id new = map product_id lines
       \<and> map order_id new = map (\<lambda>i. oid) lines
       \<and> map item_id new = map (\<lambda>j. nid + int j) [length added..<length added + length lines]
       \<and> map (\<lambda>r. Some (price_at_order r)) new
           = map (\<lambda>i. map_option price (ps (product_id i))) lines"
proof (induction lines arbitrary: ps added)
  case Nil
  then show ?case by simp
next
  case (Cons item rest)
  from Cons.prems obtain p where p: "ps (product_id item) = Some p"
    by (auto split: option.splits)
  let ?ps = "ps(product_id item \<mapsto> p\<lparr>stock_quantity := stock_quantity p - quantity item\<rparr>)"
  let ?row = "\<lparr>item_id = nid + int (length added), order_id = oid,
                       item_product_id = product_id item, item_quantity = quantity item,
                       price_at_order = price p\<rparr>"
  from Cons.prems p have "place_items oid nid rest (?ps, added @ [?row]) = Inr (ps', added')"
    by simp
  from Cons.IH [OF this] obtain new where new: "added' = (added @ [?row]) @ new"
    "map item_quantity new = map quantity rest"
    "map item_product_id new = map product_id rest"
    "map order_id new = map (\<lambda>i. oid) rest"
    "map item_id new = map (\<lambda>j. nid + int j) [length (added @ [?row])..<length (added @ [?row]) + length rest]"
    "map (\<lambda>r. Some (price_at_order r)) new = map (\<lambda>i. map_option price (?ps (product_id i))) rest"
    by blast
  have price: "map_option price (?ps k) = map_option price (ps k)" for k
    using p by simp
  have ids: "[length added..<length added + length (item # rest)]
      = length added # [length (added @ [?row])..<length (added @ [?row]) + length rest]"
    using upt_shift by simp
  have "added' = added @ (?row # new)" using new(1) by simp
  moreover have "map item_quantity (?row # new) = map quantity (item # rest)"
    using new(2) by simp
  moreover have "map item_product_id (?row # new) = map product_id (item # rest)"
    using new(3) by simp
  moreover have "map order_id (?row # new) = map (\<lambda>i. oid) (item # rest)"
    using new(4) by simp
  moreover have "map item_id (?row # new)
      = map (\<lambda>j. nid + int j) [length added..<length added + length (item # rest)]"
    unfolding ids using new(5) by simp
  moreover have "map (\<lambda>r. Some (price_at_order r)) (?row # new)
      = map (\<lambda>i. map_option price (ps (product_id i))) (item # rest)"
    using new(6) p by (simp add: price)
  ultimately show ?case by blast
qed

lemma loaded_exist:
  "validate_exist (select_for_update d (product_ids lines)) (product_ids lines) = None
     \<longleftrightarrow> (\<forall>k\<in>product_id ` set lines. products d k \<noteq> None)"
  by (simp add: validate_exist_None select_for_update_ids set_product_ids)

lemma loaded_stock:
  "validate_stock (select_for_update d (product_ids lines)) (product_quantities lines) = None
     \<longleftrightarrow> fulfillable d lines"
proof -
  let ?loaded = "select_for_update d (product_ids lines)"
  have "validate_stock ?loaded (product_quantities lines) = None \<longleftrightarrow>
      (\<forall>k q. (k, q) \<in> set (product_quantities lines)
          \<longrightarrow> (\<exists>p. ?loaded k = Some p \<and> q \<le> stock_quantity p))"
    by (auto simp: validate_stock_None)
  also have "\<dots> \<longleftrightarrow> (\<forall>k. k \<in> product_id ` set lines
          \<longrightarrow> (\<exists>p. products d k = Some p \<and> requested lines k \<le> stock_quantity p))"
    by (simp add: in_product_quantities select_for_update_ids)
  finally show ?thesis by (auto simp: fulfillable_def)
qed

lemma fulfillable_exist: "fulfillable d lines \<Longrightarrow> \<forall>k\<in>product_id ` set lines. products d k \<noteq> None"
  by (auto simp: fulfillable_def)

lemma create_order_success:
  assumes ok: "fulfillable d lines"
  obtains added where
    "create_order d lines =
       (d\<lparr>orders := (orders d)(next_order_id d \<mapsto> status_value PENDING),
          next_order_id := next_order_id d + 1,
          products := decremented lines (products d),
          order_items := order_items d @ added,
          next_item_id := next_item_id d + int (length added)\<rparr>,
        Inr \<lparr>order_pk = next_order_id d, status = status_value PENDING,
             items = filter (\<lambda>i. order_id i = next_order_id d) (order_items d @ added)\<rparr>)"
    and "map item_quantity added = map quantity lines"
    and "map item_product_id added = map product_id lines"
    and "map order_id added = map (\<lambda>i. next_order_id d) lines"
    and "map item_id added = map (\<lambda>j. next_item_id d + int j) [0..<length lines]"
    and "map (\<lambda>r. Some (price_at_order r)) added
          = map (\<lambda>i. map_option price (products d (product_id i))) lines"
proof -
  let ?loaded = "select_for_update d (product_ids lines)"
  have ex: "validate_exist ?loaded (product_ids lines) = None"
    using fulfillable_exist [OF ok] by (simp add: loaded_exist)
  have st: "validate_stock ?loaded (product_quantities lines) = None"
    using ok by (simp add: loaded_stock)
  have "\<forall>i\<in>set lines. ?loaded (product_id i) \<noteq> None"
    using fulfillable_exist [OF ok] by (simp add: select_for_update_ids)
  then obtain ps added where
    pl: "place_items (next_order_id d) (next_item_id d) lines (?loaded, []) = Inr (ps, added)"
    using place_items_total by blast
  have "(products d ++ ps) k = decremented lines (products d) k" for k
    using place_items_stock [OF pl, of k]
    by (cases "products d k")
       (simp_all add: select_for_update_ids decremented_def map_add_def requested_unreferenced)
  then have stock: "products d ++ ps = decremented lines (products d)"
    by (rule ext)
  from place_items_added [OF pl] have rows:
    "map item_quantity added = map quantity lines"
    "map item_product_id added = map product_id lines"
    "map order_id added = map (\<lambda>i. next_order_id d) lines"
    "map item_id added = map (\<lambda>j. next_item_id d + int j) [0..<length lines]"
    "map (\<lambda>r. Some (price_at_order r)) added
       = map (\<lambda>i. map_option price (?loaded (product_id i))) lines"
    by auto
  have prices: "map (\<lambda>i. map_option price (?loaded (product_id i))) lines
      = map (\<lambda>i. map_option price (products d (product_id i))) lines"
    by (simp add: select_for_update_ids)
  have "create_order d lines =
       (d\<lparr>orders := (orders d)(next_order_id d \<mapsto> status_value PENDING),
          next_order_id := next_order_id d + 1,
          products := products d ++ ps,
          order_items := order_items d @ added,
          next_item_id := next_item_id d + int (length added)\<rparr>,
        Inr \<lparr>order_pk = next_order_id d, status = status_value PENDING,
             items = filter (\<lambda>i. order_id i = next_order_id d) (order_items d @ added)\<rparr>)"
    using ex st pl
    by (simp add: create_order_def Let_def product_ids_def load_items_def)
  then show thesis
    using rows(1-4) rows(5) [unfolded prices] unfolding stock by (rule that)
qed

lemma create_order_failure:
  assumes bad: "\<not> fulfillable d lines"
  shows "\<exists>e. create_order d lines = (d, Inl e)
     \<and> ((\<exists>k\<in>product_id ` set lines. products d k = None \<and> e = ProductNotFoundError k)
        \<or> (\<exists>k\<in>product_id ` set lines. \<exists>p. products d k = Some p
              \<and> stock_quantity p < requested lines k
              \<and> e = InsufficientStockError k (stock_quantity p) (requested lines k)))"
proof -
  let ?loaded = "select_for_update d (product_ids lines)"
  show ?thesis
  proof (cases "validate_exist ?loaded (product_ids lines)")
    case (Some e)
    from validate_exist_Some [OF Some]
    have "\<exists>k\<in>product_id ` set lines. products d k = None \<and> e = ProductNotFoundError k"
      by (auto simp: set_product_ids select_for_update_ids)
    moreover have "create_order d lines = (d, Inl e)"
      using Some by (simp add: create_order_def Let_def product_ids_def)
    ultimately show ?thesis by blast
  next
    case None
    then have all: "\<forall>k\<in>fst ` set (product_quantities lines). ?loaded k \<noteq> None"
      by (simp add: validate_exist_None product_ids_def)
    from bad obtain e where e: "validate_stock ?loaded (product_quantities lines) = Some e"
      by (auto simp: loaded_stock [symmetric])
    from validate_stock_Some [OF e all] obtain k q p where
      kq: "(k, q) \<in> set (product_quantities lines)" and
      p: "?loaded k = Some p" "stock_quantity p < q"
         "e = InsufficientStockError k (stock_quantity p) q"
      by blast
    from kq have k: "k \<in> product_id ` set lines" and q: "q = requested lines k"
      by (simp_all add: in_product_quantities)
    from p(1) k have "products d k = Some p"
      by (simp add: select_for_update_ids)
    with k p q
    have "\<exists>k\<in>product_id ` set lines. \<exists>p. products d k = Some p
              \<and> stock_quantity p < requested lines k
              \<and> e = InsufficientStockError k (stock_quantity p) (requested lines k)"
      by blast
    moreover have "create_order d lines = (d, Inl e)"
      using None e by (simp add: create_order_def Let_def product_ids_def)
    ultimately show ?thesis by blast
  qed
qed

text \<open>
  The table \<^verbatim>\<open>products\<close> has the constraint \<^verbatim>\<open>stock_quantity >= 0\<close>, checked by the
  database when \<open>commit\<close> writes the rows. It cannot fail there: the rows a successful
  call writes hold a stock that validation found to cover what was taken from it.
\<close>

lemma create_order_stock_nonneg:
  assumes "fulfillable d lines" and "k \<in> product_id ` set lines"
  shows "\<exists>p. products (fst (create_order d lines)) k = Some p \<and> 0 \<le> stock_quantity p"
proof -
  from assms obtain p where p: "products d k = Some p" "requested lines k \<le> stock_quantity p"
    by (auto simp: fulfillable_def)
  from create_order_success [OF assms(1)] obtain added where
    "create_order d lines =
       (d\<lparr>orders := (orders d)(next_order_id d \<mapsto> status_value PENDING),
          next_order_id := next_order_id d + 1,
          products := decremented lines (products d),
          order_items := order_items d @ added,
          next_item_id := next_item_id d + int (length added)\<rparr>,
        Inr \<lparr>order_pk = next_order_id d, status = status_value PENDING,
             items = filter (\<lambda>i. order_id i = next_order_id d) (order_items d @ added)\<rparr>)"
    by blast
  with p show ?thesis by (simp add: decremented_def)
qed

section \<open>Properties of order creation\<close>

text \<open>
  Claim C1. When \<open>create_order\<close> succeeds, every product named by a line has, after
  the call, the row it had before with \<open>stock_quantity\<close> lowered by exactly the
  aggregated quantity of the order for that product, which is the sum of the quantities
  of all lines naming it.
\<close>

theorem create_order_decrements_stock:
  assumes "snd (create_order d lines) = Inr r" and "k \<in> product_id ` set lines"
  shows "\<exists>p. products d k = Some p
           \<and> map_of (product_quantities lines) k = Some (requested lines k)
           \<and> products (fst (create_order d lines)) k
               = Some (p\<lparr>stock_quantity := stock_quantity p - requested lines k\<rparr>)"
proof (cases "fulfillable d lines")
  case True
  from assms(2) True obtain p where p: "products d k = Some p"
    by (auto simp: fulfillable_def)
  from create_order_success [OF True] obtain added where
    "create_order d lines =
       (d\<lparr>orders := (orders d)(next_order_id d \<mapsto> status_value PENDING),
          next_order_id := next_order_id d + 1,
          products := decremented lines (products d),
          order_items := order_items d @ added,
          next_item_id := next_item_id d + int (length added)\<rparr>,
        Inr \<lparr>order_pk = next_order_id d, status = status_value PENDING,
             items = filter (\<lambda>i. order_id i = next_order_id d) (order_items d @ added)\<rparr>)"
    by blast
  then have "products (fst (create_order d lines)) k = decremented lines (products d) k"
    by simp
  with p assms(2) show ?thesis
    by (simp add: decremented_def map_of_product_quantities)
next
  case False
  from create_order_failure [OF False] assms(1) show ?thesis by auto
qed

theorem create_order_decrements_stock_witness:
  "snd (create_order
      \<lparr>products = [1 \<mapsto> \<lparr>name = ''A'', price = 2500, stock_quantity = 10\<rparr>],
       orders = Map.empty, order_items = [],
       next_product_id = 2, next_order_id = 1, next_item_id = 1\<rparr>
      [\<lparr>product_id = 1, quantity = 3\<rparr>, \<lparr>product_id = 1, quantity = 3\<rparr>])
    = Inr \<lparr>order_pk = 1, status = ''pending'',
           items = [\<lparr>item_id = 1, order_id = 1, item_product_id = 1, item_quantity = 3,
                     price_at_order = 2500\<rparr>,
                    \<lparr>item_id = 2, order_id = 1, item_product_id = 1, item_quantity = 3,
                     price_at_order = 2500\<rparr>]\<rparr>
   \<and> products (fst (create_order
      \<lparr>products = [1 \<mapsto> \<lparr>name = ''A'', price = 2500, stock_quantity = 10\<rparr>],
       orders = Map.empty, order_items = [],
       next_product_id = 2, next_order_id = 1, next_item_id = 1\<rparr>
      [\<lparr>product_id = 1, quantity = 3\<rparr>, \<lparr>product_id = 1, quantity = 3\<rparr>])) 1
    = Some \<lparr>name = ''A'', price = 2500, stock_quantity = 4\<rparr>"
proof -
  let ?d = "\<lparr>products = [1 \<mapsto> \<lparr>name = ''A'', price = 2500, stock_quantity = 10\<rparr>],
       orders = Map.empty, order_items = [],
       next_product_id = 2, next_order_id = 1, next_item_id = 1\<rparr>"
  let ?l = "[\<lparr>product_id = 1, quantity = 3\<rparr>, \<lparr>product_id = 1, quantity = 3\<rparr>]"
  have ok: "snd (create_order ?d ?l)
    = Inr \<lparr>order_pk = 1, status = ''pending'',
           items = [\<lparr>item_id = 1, order_id = 1, item_product_id = 1, item_quantity = 3,
                     price_at_order = 2500\<rparr>,
                    \<lparr>item_id = 2, order_id = 1, item_product_id = 1, item_quantity = 3,
                     price_at_order = 2500\<rparr>]\<rparr>"
    by (simp add: create_order_def product_quantities_def add_quantity_def
          select_for_update_def load_items_def Let_def)
  have k: "(1::int) \<in> product_id ` set ?l" by simp
  from create_order_decrements_stock [OF ok k] ok show ?thesis
    by (simp add: requested_def)
qed

text \<open>
  Claim C2. When \<open>create_order\<close> fails, the database it leaves is the database it
  was given: every product row, and so every stock, is as before, and no order row or
  item row was written. The failure is then \<open>ProductNotFoundError\<close> for a named product
  that has no row, or \<open>InsufficientStockError\<close> for a named product whose stock is
  below the sum requested of it, carrying the stock and that sum.
\<close>

theorem create_order_failure_atomic:
  assumes "snd (create_order d lines) = Inl e"
  shows "fst (create_order d lines) = d
     \<and> ((\<exists>k\<in>product_id ` set lines. products d k = None \<and> e = ProductNotFoundError k)
        \<or> (\<exists>k\<in>product_id ` set lines. \<exists>p. products d k = Some p
              \<and> stock_quantity p < requested lines k
              \<and> e = InsufficientStockError k (stock_quantity p) (requested lines k)))"
proof (cases "fulfillable d lines")
  case True
  from create_order_success [OF True] obtain d' r where "create_order d lines = (d', Inr r)"
    by blast
  with assms show ?thesis by simp
next
  case False
  from create_order_failure [OF False] obtain e' where
    e': "create_order d lines = (d, Inl e')"
    "(\<exists>k\<in>product_id ` set lines. products d k = None \<and> e' = ProductNotFoundError k)
        \<or> (\<exists>k\<in>product_id ` set lines. \<exists>p. products d k = Some p
              \<and> stock_quantity p < requested lines k
              \<and> e' = InsufficientStockError k (stock_quantity p) (requested lines k))"
    by blast
  from e'(1) assms have "e' = e" by simp
  with e' show ?thesis by simp
qed

theorem create_order_failure_atomic_witness:
  "snd (create_order
      \<lparr>products = [1 \<mapsto> \<lparr>name = ''A'', price = 2500, stock_quantity = 100\<rparr>,
                   2 \<mapsto> \<lparr>name = ''B'', price = 1550, stock_quantity = 3\<rparr>],
       orders = Map.empty, order_items = [],
       next_product_id = 3, next_order_id = 1, next_item_id = 1\<rparr>
      [\<lparr>product_id = 1, quantity = 10\<rparr>, \<lparr>product_id = 2, quantity = 5\<rparr>])
    = Inl (InsufficientStockError 2 3 5)
   \<and> fst (create_order
      \<lparr>products = [1 \<mapsto> \<lparr>name = ''A'', price = 2500, stock_quantity = 100\<rparr>,
                   2 \<mapsto> \<lparr>name = ''B'', price = 1550, stock_quantity = 3\<rparr>],
       orders = Map.empty, order_items = [],
       next_product_id = 3, next_order_id = 1, next_item_id = 1\<rparr>
      [\<lparr>product_id = 1, quantity = 10\<rparr>, \<lparr>product_id = 2, quantity = 5\<rparr>])
    = \<lparr>products = [1 \<mapsto> \<lparr>name = ''A'', price = 2500, stock_quantity = 100\<rparr>,
                   2 \<mapsto> \<lparr>name = ''B'', price = 1550, stock_quantity = 3\<rparr>],
       orders = Map.empty, order_items = [],
       next_product_id = 3, next_order_id = 1, next_item_id = 1\<rparr>"
proof -
  let ?d = "\<lparr>products = [1 \<mapsto> \<lparr>name = ''A'', price = 2500, stock_quantity = 100\<rparr>,
                   2 \<mapsto> \<lparr>name = ''B'', price = 1550, stock_quantity = 3\<rparr>],
       orders = Map.empty, order_items = [],
       next_product_id = 3, next_order_id = 1, next_item_id = 1\<rparr>"
  let ?l = "[\<lparr>product_id = 1, quantity = 10\<rparr>, \<lparr>product_id = 2, quantity = 5\<rparr>]"
  have bad: "snd (create_order ?d ?l) = Inl (InsufficientStockError 2 3 5)"
    by (simp add: create_order_def product_quantities_def add_quantity_def
          select_for_update_def Let_def)
  from create_order_failure_atomic [OF bad] bad show ?thesis by simp
qed

text \<open>
  Claim C6. The engine itself has no check of the quantities: called with a line of
  quantity \<open>- 5\<close> it creates the order and its item and raises the stock from 10 to 15.
\<close>

theorem create_order_accepts_nonpositive_quantity:
  "quantity \<lparr>product_id = 1, quantity = - 5\<rparr> \<le> 0
   \<and> snd (create_order
      \<lparr>products = [1 \<mapsto> \<lparr>name = ''A'', price = 2500, stock_quantity = 10\<rparr>],
       orders = Map.empty, order_items = [],
       next_product_id = 2, next_order_id = 1, next_item_id = 1\<rparr>
      [\<lparr>product_id = 1, quantity = - 5\<rparr>])
    = Inr \<lparr>order_pk = 1, status = ''pending'',
           items = [\<lparr>item_id = 1, order_id = 1, item_product_id = 1, item_quantity = - 5,
                     price_at_order = 2500\<rparr>]\<rparr>
   \<and> products (fst (create_order
      \<lparr>products = [1 \<mapsto> \<lparr>name = ''A'', price = 2500, stock_quantity = 10\<rparr>],
       orders = Map.empty, order_items = [],
       next_product_id = 2, next_order_id = 1, next_item_id = 1\<rparr>
      [\<lparr>product_id = 1, quantity = - 5\<rparr>])) 1
    = Some \<lparr>name = ''A'', price = 2500, stock_quantity = 15\<rparr>"
  by (simp add: create_order_def product_quantities_def add_quantity_def
        select_for_update_def load_items_def Let_def)

text \<open>
  Claim C6, as the code has it: the check is the schema's. A request with a line of
  quantity \<open>\<le> 0\<close> does not fit \<^verbatim>\<open>OrderItemCreate\<close>, so the request layer refuses it
  before the engine is called, and the database is unchanged: no order, no item, no
  stock change.
\<close>

theorem post_orders_rejects_nonpositive_quantity:
  assumes "i \<in> set lines" and "quantity i \<le> 0"
  shows "post_orders d lines = (d, Inl RequestValidationError)"
proof -
  from assms(2) have "\<not> OrderItemCreate_valid i"
    by (simp add: OrderItemCreate_valid_def)
  with assms(1) have "\<not> list_all OrderItemCreate_valid lines"
    by (auto simp: list_all_iff)
  then show ?thesis by (simp add: post_orders_def OrderCreate_valid_def)
qed

theorem post_orders_rejects_nonpositive_quantity_witness:
  "\<lparr>product_id = 1, quantity = 0\<rparr> \<in> set [\<lparr>product_id = 2, quantity = 4\<rparr>, \<lparr>product_id = 1, quantity = 0\<rparr>]
   \<and> quantity \<lparr>product_id = 1, quantity = 0\<rparr> \<le> 0
   \<and> post_orders
      \<lparr>products = [1 \<mapsto> \<lparr>name = ''A'', price = 2500, stock_quantity = 10\<rparr>],
       orders = Map.empty, order_items = [],
       next_product_id = 2, next_order_id = 1, next_item_id = 1\<rparr>
      [\<lparr>product_id = 2, quantity = 4\<rparr>, \<lparr>product_id = 1, quantity = 0\<rparr>]
    = (\<lparr>products = [1 \<mapsto> \<lparr>name = ''A'', price = 2500, stock_quantity = 10\<rparr>],
       orders = Map.empty, order_items = [],
       next_product_id = 2, next_order_id = 1, next_item_id = 1\<rparr>,
       Inl RequestValidationError)"
  using post_orders_rejects_nonpositive_quantity
    [of "\<lparr>product_id = 1, quantity = 0\<rparr>"
        "[\<lparr>product_id = 2, quantity = 4\<rparr>, \<lparr>product_id = 1, quantity = 0\<rparr>]"
        "\<lparr>products = [1 \<mapsto> \<lparr>name = ''A'', price = 2500, stock_quantity = 10\<rparr>],
       orders = Map.empty, order_items = [],
       next_product_id = 2, next_order_id = 1, next_item_id = 1\<rparr>"]
  by simp

text \<open>
  Claim C7. The engine itself has no check for an empty list, and nothing raises
  \<open>EmptyOrderError\<close>: called with no lines it succeeds and stores an order with no item.
\<close>

theorem create_order_accepts_empty:
  "snd (create_order
      \<lparr>products = [1 \<mapsto> \<lparr>name = ''A'', price = 2500, stock_quantity = 10\<rparr>],
       orders = Map.empty, order_items = [],
       next_product_id = 2, next_order_id = 1, next_item_id = 1\<rparr> [])
    = Inr \<lparr>order_pk = 1, status = ''pending'', items = []\<rparr>
   \<and> orders (fst (create_order
      \<lparr>products = [1 \<mapsto> \<lparr>name = ''A'', price = 2500, stock_quantity = 10\<rparr>],
       orders = Map.empty, order_items = [],
       next_product_id = 2, next_order_id = 1, next_item_id = 1\<rparr> [])) 1
    = Some ''pending''"
  by (simp add: create_order_def product_quantities_def
        select_for_update_def load_items_def Let_def)

text \<open>
  Claim C7, as the code has it: the check is the schema's. A request with an empty
  list does not fit \<^verbatim>\<open>OrderCreate\<close> (\<^verbatim>\<open>min_length=1\<close>), so the request layer refuses it
  before the engine is called, and the database is unchanged: no order is created and
  no stock is changed.
\<close>

theorem post_orders_rejects_empty:
  "post_orders d [] = (d, Inl RequestValidationError)"
  by (simp add: post_orders_def OrderCreate_valid_def)

section \<open>The lock request\<close>

lemma keys_add_quantity_list:
  "map fst (add_quantity item pq) =
     (if product_id item \<in> set (map fst pq) then map fst pq else map fst pq @ [product_id item])"
  by (simp add: add_quantity_def AList.update_keys split: option.splits)

lemma remdups_rev_absorb:
  assumes "x \<in> set ks"
  shows "rev (remdups (rev (ks @ x # xs))) = rev (remdups (rev (ks @ xs)))"
proof -
  have "remdups (rev xs @ x # rev ks) = remdups (rev xs @ remdups (x # rev ks))"
    by (simp only: remdups_append2)
  also have "\<dots> = remdups (rev xs @ remdups (rev ks))"
    using assms by simp
  also have "\<dots> = remdups (rev xs @ rev ks)"
    by (simp only: remdups_append2)
  finally show ?thesis by simp
qed

lemma keys_aggregate_first_seen:
  "distinct (map fst pq) \<Longrightarrow>
     map fst (aggregate lines pq) = rev (remdups (rev (map fst pq @ map product_id lines)))"
proof (induction lines arbitrary: pq)
  case Nil
  then show ?case by (simp add: distinct_remdups_id)
next
  case (Cons item rest)
  have d: "distinct (map fst (add_quantity item pq))"
    using Cons.prems by (rule distinct_add_quantity)
  show ?case
  proof (cases "product_id item \<in> set (map fst pq)")
    case True
    then have "map fst (add_quantity item pq) = map fst pq"
      by (simp add: keys_add_quantity_list)
    with Cons.IH [OF d] remdups_rev_absorb [OF True, of "map product_id rest"]
    show ?thesis by simp
  next
    case False
    then have "map fst (add_quantity item pq) = map fst pq @ [product_id item]"
      by (simp add: keys_add_quantity_list)
    with Cons.IH [OF d] show ?thesis by simp
  qed
qed

text \<open>
  Claim C8, as the code has it. The ids that the locking statement names are exactly
  the distinct product ids of the lines, each once, in the order in which the lines
  first mention them; the rows it loads are those of them that exist. Nothing sorts
  the list, and the statement has no \<^verbatim>\<open>order_by\<close>.
\<close>

theorem lock_request_first_seen_order:
  "set (product_ids lines) = product_id ` set lines
   \<and> distinct (product_ids lines)
   \<and> product_ids lines = rev (remdups (rev (map product_id lines)))
   \<and> dom (select_for_update d (product_ids lines)) = product_id ` set lines \<inter> dom (products d)"
proof -
  have "product_ids lines = rev (remdups (rev (map product_id lines)))"
    using keys_aggregate_first_seen [of "[]" lines]
    by (simp add: product_ids_def product_quantities_def)
  moreover have "dom (select_for_update d (product_ids lines))
      = product_id ` set lines \<inter> dom (products d)"
    by (auto simp: select_for_update_ids dom_def)
  ultimately show ?thesis
    using set_product_ids [of lines] distinct_product_ids [of lines] by simp
qed

text \<open>
  Claim C8. The list is not ascending by id, and it depends on the order of the
  lines: for the lines naming products 2 and then 1 it is \<open>[2, 1]\<close>, for the same
  lines the other way round it is \<open>[1, 2]\<close>.
\<close>

theorem lock_request_not_ascending:
  "product_ids [\<lparr>product_id = 2, quantity = 1\<rparr>, \<lparr>product_id = 1, quantity = 1\<rparr>] = [2, 1]
   \<and> \<not> sorted (product_ids [\<lparr>product_id = 2, quantity = 1\<rparr>, \<lparr>product_id = 1, quantity = 1\<rparr>])
   \<and> product_ids [\<lparr>product_id = 1, quantity = 1\<rparr>, \<lparr>product_id = 2, quantity = 1\<rparr>] = [1, 2]"
  by (simp add: product_ids_def product_quantities_def add_quantity_def)

section \<open>Duplicate lines and the items of an order\<close>

lemma const_map_set:
  assumes "map f xs = map (\<lambda>i. c) ys" and "x \<in> set xs"
  shows "f x = c"
proof -
  from assms(2) have "f x \<in> set (map f xs)" by simp
  then show ?thesis unfolding assms(1) by auto
qed

lemma own_items_loaded:
  assumes "db_consistent d" and "map order_id added = map (\<lambda>i. next_order_id d) lines"
  shows "filter (\<lambda>i. order_id i = next_order_id d) (order_items d @ added) = added"
proof -
  have "filter (\<lambda>i. order_id i = next_order_id d) (order_items d) = []"
    using assms(1) by (auto simp: db_consistent_def filter_empty_conv)
  moreover have "filter (\<lambda>i. order_id i = next_order_id d) added = added"
    using const_map_set [OF assms(2)] by (simp add: filter_id_conv)
  ultimately show ?thesis by simp
qed

lemma other_items_loaded:
  assumes "oid < next_order_id d" and "map order_id added = map (\<lambda>i. next_order_id d) lines"
  shows "filter (\<lambda>i. order_id i = oid) (order_items d @ added)
       = filter (\<lambda>i. order_id i = oid) (order_items d)"
proof -
  have "filter (\<lambda>i. order_id i = oid) added = []"
    using const_map_set [OF assms(2)] assms(1) by (auto simp: filter_empty_conv)
  then show ?thesis by simp
qed

text \<open>What a successful call returns and leaves, with the items it loaded made explicit.\<close>

lemma create_order_result:
  assumes ok: "fulfillable d lines" and cons: "db_consistent d"
  obtains added where
    "create_order d lines =
       (d\<lparr>orders := (orders d)(next_order_id d \<mapsto> status_value PENDING),
          next_order_id := next_order_id d + 1,
          products := decremented lines (products d),
          order_items := order_items d @ added,
          next_item_id := next_item_id d + int (length added)\<rparr>,
        Inr \<lparr>order_pk = next_order_id d, status = status_value PENDING, items = added\<rparr>)"
    and "map item_quantity added = map quantity lines"
    and "map item_product_id added = map product_id lines"
    and "map order_id added = map (\<lambda>i. next_order_id d) lines"
    and "map item_id added = map (\<lambda>j. next_item_id d + int j) [0..<length lines]"
    and "map (\<lambda>r. Some (price_at_order r)) added
          = map (\<lambda>i. map_option price (products d (product_id i))) lines"
proof -
  from create_order_success [OF ok] obtain added where a:
    "create_order d lines =
       (d\<lparr>orders := (orders d)(next_order_id d \<mapsto> status_value PENDING),
          next_order_id := next_order_id d + 1,
          products := decremented lines (products d),
          order_items := order_items d @ added,
          next_item_id := next_item_id d + int (length added)\<rparr>,
        Inr \<lparr>order_pk = next_order_id d, status = status_value PENDING,
             items = filter (\<lambda>i. order_id i = next_order_id d) (order_items d @ added)\<rparr>)"
    "map item_quantity added = map quantity lines"
    "map item_product_id added = map product_id lines"
    "map order_id added = map (\<lambda>i. next_order_id d) lines"
    "map item_id added = map (\<lambda>j. next_item_id d + int j) [0..<length lines]"
    "map (\<lambda>r. Some (price_at_order r)) added
          = map (\<lambda>i. map_option price (products d (product_id i))) lines"
    by blast
  show thesis
    using a(1) [unfolded own_items_loaded [OF cons a(4)]] a(2-6) by (rule that)
qed

lemma fulfillable_cong:
  assumes "product_id ` set l1 = product_id ` set l2" and "requested l1 = requested l2"
  shows "fulfillable d l1 = fulfillable d l2"
  by (simp add: fulfillable_def assms)

lemma decremented_cong:
  "requested l1 = requested l2 \<Longrightarrow> decremented l1 tbl = decremented l2 tbl"
  by (simp add: decremented_def)

lemma create_order_products:
  "products (fst (create_order d lines)) =
     (if fulfillable d lines then decremented lines (products d) else products d)"
proof (cases "fulfillable d lines")
  case True
  from create_order_success [OF True] obtain added where
    "create_order d lines =
       (d\<lparr>orders := (orders d)(next_order_id d \<mapsto> status_value PENDING),
          next_order_id := next_order_id d + 1,
          products := decremented lines (products d),
          order_items := order_items d @ added,
          next_item_id := next_item_id d + int (length added)\<rparr>,
        Inr \<lparr>order_pk = next_order_id d, status = status_value PENDING,
             items = filter (\<lambda>i. order_id i = next_order_id d) (order_items d @ added)\<rparr>)"
    by blast
  with True show ?thesis by simp
next
  case False
  from create_order_failure [OF False] obtain e where "create_order d lines = (d, Inl e)"
    by blast
  with False show ?thesis by simp
qed

lemma create_order_isl: "isl (snd (create_order d lines)) = (\<not> fulfillable d lines)"
proof (cases "fulfillable d lines")
  case True
  from create_order_success [OF True] obtain d' r where "create_order d lines = (d', Inr r)"
    by blast
  with True show ?thesis by simp
next
  case False
  from create_order_failure [OF False] obtain e where "create_order d lines = (d, Inl e)"
    by blast
  with False show ?thesis by simp
qed

lemma create_order_error:
  "snd (create_order d lines) = Inl e \<longleftrightarrow> first_error d (product_quantities lines) = Some e"
proof (cases "validate_exist (select_for_update d (product_ids lines)) (product_ids lines)")
  case (Some e')
  then show ?thesis
    by (simp add: create_order_def first_error_def Let_def product_ids_def)
next
  case None
  note ex = this
  show ?thesis
  proof (cases "validate_stock (select_for_update d (product_ids lines)) (product_quantities lines)")
    case (Some e')
    with ex show ?thesis
      by (simp add: create_order_def first_error_def Let_def product_ids_def)
  next
    case None
    then have "fulfillable d lines" by (simp add: loaded_stock)
    then have "\<not> isl (snd (create_order d lines))" by (simp add: create_order_isl)
    then have "snd (create_order d lines) \<noteq> Inl e" by auto
    with ex None show ?thesis by (simp add: first_error_def product_ids_def)
  qed
qed

lemma alist_eqI:
  "map fst xs = map fst ys \<Longrightarrow> map_of xs = map_of ys \<Longrightarrow> distinct (map fst xs) \<Longrightarrow> xs = ys"
proof (induction xs arbitrary: ys)
  case Nil
  then show ?case by simp
next
  case (Cons x xs)
  then obtain y ys' where ys: "ys = y # ys'" by (cases ys) auto
  with Cons.prems have k: "fst x = fst y" and ks: "map fst xs = map fst ys'" by simp_all
  from Cons.prems(2) have "map_of (x # xs) (fst x) = map_of ys (fst x)" by (rule fun_cong)
  with ys k have v: "snd x = snd y" by simp
  have "map_of xs k' = map_of ys' k'" for k'
  proof (cases "k' = fst x")
    case True
    with Cons.prems(3) have a: "k' \<notin> set (map fst xs)" by simp
    then have b: "k' \<notin> set (map fst ys')" unfolding ks .
    from a have "map_of xs k' = None" by (simp add: map_of_eq_None_iff)
    moreover from b have "map_of ys' k' = None" by (simp add: map_of_eq_None_iff)
    ultimately show ?thesis by simp
  next
    case False
    from Cons.prems(2) have "map_of (x # xs) k' = map_of ys k'" by (rule fun_cong)
    with False ys k show ?thesis by (cases x; cases y) (simp split: if_splits)
  qed
  then have "map_of xs = map_of ys'" by (rule ext)
  with Cons.IH [OF ks] Cons.prems(3) have "xs = ys'" by simp
  with k v ys show ?case by (simp add: prod_eq_iff)
qed

lemma product_quantities_cong:
  assumes "product_ids l1 = product_ids l2" and "requested l1 = requested l2"
  shows "product_quantities l1 = product_quantities l2"
proof (rule alist_eqI)
  show "map fst (product_quantities l1) = map fst (product_quantities l2)"
    using assms(1) by (simp add: product_ids_def)
  have "set (product_ids l1) = set (product_ids l2)" using assms(1) by simp
  then have "product_id ` set l1 = product_id ` set l2" by (simp add: set_product_ids)
  then show "map_of (product_quantities l1) = map_of (product_quantities l2)"
    using assms(2) by (auto simp: map_of_product_quantities fun_eq_iff)
  show "distinct (map fst (product_quantities l1))"
    using distinct_product_ids [of l1] by (simp add: product_ids_def)
qed

text \<open>
  Claim C4. Two inputs that name the same products and request the same sum of each
  (as an input with a product on several lines and the input with that product once,
  at the summed quantity) are validated alike, pass or fail, and leave the same
  products table; when they also first mention the products in the same order, a
  failure is the same error. A successful call still returns one item per line of its
  own input, in line order, each with its line's product and quantity and an id of its
  own.
\<close>

theorem duplicate_lines_as_summed_line:
  assumes same: "product_id ` set l1 = product_id ` set l2"
      and sums: "requested l1 = requested l2"
      and cons: "db_consistent d"
  shows "isl (snd (create_order d l1)) = isl (snd (create_order d l2))
     \<and> products (fst (create_order d l1)) = products (fst (create_order d l2))
     \<and> (product_ids l1 = product_ids l2 \<longrightarrow>
          (\<forall>e. (snd (create_order d l1) = Inl e) = (snd (create_order d l2) = Inl e)))
     \<and> (\<forall>r. snd (create_order d l1) = Inr r \<longrightarrow>
          map item_quantity (items r) = map quantity l1
          \<and> map item_product_id (items r) = map product_id l1
          \<and> distinct (map item_id (items r)))"
proof (intro conjI impI allI)
  show "isl (snd (create_order d l1)) = isl (snd (create_order d l2))"
    by (simp add: create_order_isl fulfillable_cong [OF same sums])
  show "products (fst (create_order d l1)) = products (fst (create_order d l2))"
    by (simp add: create_order_products fulfillable_cong [OF same sums]
          decremented_cong [OF sums])
next
  fix e
  assume "product_ids l1 = product_ids l2"
  then have "product_quantities l1 = product_quantities l2"
    using sums by (rule product_quantities_cong)
  then show "(snd (create_order d l1) = Inl e) = (snd (create_order d l2) = Inl e)"
    by (simp add: create_order_error)
next
  fix r
  assume r: "snd (create_order d l1) = Inr r"
  then have "\<not> isl (snd (create_order d l1))" by simp
  then have ok: "fulfillable d l1" by (simp add: create_order_isl)
  from create_order_result [OF ok cons] obtain added where a:
    "create_order d l1 =
       (d\<lparr>orders := (orders d)(next_order_id d \<mapsto> status_value PENDING),
          next_order_id := next_order_id d + 1,
          products := decremented l1 (products d),
          order_items := order_items d @ added,
          next_item_id := next_item_id d + int (length added)\<rparr>,
        Inr \<lparr>order_pk = next_order_id d, status = status_value PENDING, items = added\<rparr>)"
    "map item_quantity added = map quantity l1"
    "map item_product_id added = map product_id l1"
    "map item_id added = map (\<lambda>j. next_item_id d + int j) [0..<length l1]"
    by blast
  from a(1) r have items: "items r = added" by auto
  have "distinct (map (\<lambda>j. next_item_id d + int j) [0..<length l1])"
    by (simp add: distinct_map inj_on_def)
  with a(2-4) items show "map item_quantity (items r) = map quantity l1"
    "map item_product_id (items r) = map product_id l1"
    "distinct (map item_id (items r))"
    by simp_all
qed

theorem duplicate_lines_as_summed_line_witness:
  "product_id ` set [\<lparr>product_id = 1, quantity = 3\<rparr>, \<lparr>product_id = 1, quantity = 3\<rparr>]
     = product_id ` set [\<lparr>product_id = 1, quantity = 6\<rparr>]
   \<and> requested [\<lparr>product_id = 1, quantity = 3\<rparr>, \<lparr>product_id = 1, quantity = 3\<rparr>]
     = requested [\<lparr>product_id = 1, quantity = 6\<rparr>]
   \<and> db_consistent \<lparr>products = [1 \<mapsto> \<lparr>name = ''P'', price = 3000, stock_quantity = 10\<rparr>],
       orders = Map.empty, order_items = [],
       next_product_id = 2, next_order_id = 1, next_item_id = 1\<rparr>
   \<and> product_ids [\<lparr>product_id = 1, quantity = 3\<rparr>, \<lparr>product_id = 1, quantity = 3\<rparr>]
     = product_ids [\<lparr>product_id = 1, quantity = 6\<rparr>]
   \<and> snd (create_order
      \<lparr>products = [1 \<mapsto> \<lparr>name = ''P'', price = 3000, stock_quantity = 10\<rparr>],
       orders = Map.empty, order_items = [],
       next_product_id = 2, next_order_id = 1, next_item_id = 1\<rparr>
      [\<lparr>product_id = 1, quantity = 3\<rparr>, \<lparr>product_id = 1, quantity = 3\<rparr>])
     = Inr \<lparr>order_pk = 1, status = ''pending'',
           items = [\<lparr>item_id = 1, order_id = 1, item_product_id = 1, item_quantity = 3,
                     price_at_order = 3000\<rparr>,
                    \<lparr>item_id = 2, order_id = 1, item_product_id = 1, item_quantity = 3,
                     price_at_order = 3000\<rparr>]\<rparr>
   \<and> products (fst (create_order
      \<lparr>products = [1 \<mapsto> \<lparr>name = ''P'', price = 3000, stock_quantity = 10\<rparr>],
       orders = Map.empty, order_items = [],
       next_product_id = 2, next_order_id = 1, next_item_id = 1\<rparr>
      [\<lparr>product_id = 1, quantity = 3\<rparr>, \<lparr>product_id = 1, quantity = 3\<rparr>]))
     = products (fst (create_order
      \<lparr>products = [1 \<mapsto> \<lparr>name = ''P'', price = 3000, stock_quantity = 10\<rparr>],
       orders = Map.empty, order_items = [],
       next_product_id = 2, next_order_id = 1, next_item_id = 1\<rparr>
      [\<lparr>product_id = 1, quantity = 6\<rparr>]))
   \<and> products (fst (create_order
      \<lparr>products = [1 \<mapsto> \<lparr>name = ''P'', price = 3000, stock_quantity = 10\<rparr>],
       orders = Map.empty, order_items = [],
       next_product_id = 2, next_order_id = 1, next_item_id = 1\<rparr>
      [\<lparr>product_id = 1, quantity = 6\<rparr>])) 1
     = Some \<lparr>name = ''P'', price = 3000, stock_quantity = 4\<rparr>"
proof -
  let ?d = "\<lparr>products = [1 \<mapsto> \<lparr>name = ''P'', price = 3000, stock_quantity = 10\<rparr>],
       orders = Map.empty, order_items = [],
       next_product_id = 2, next_order_id = 1, next_item_id = 1\<rparr>"
  let ?l1 = "[\<lparr>product_id = 1, quantity = 3\<rparr>, \<lparr>product_id = 1, quantity = 3\<rparr>]"
  let ?l2 = "[\<lparr>product_id = 1, quantity = 6\<rparr>]"
  have same: "product_id ` set ?l1 = product_id ` set ?l2" by simp
  have sums: "requested ?l1 = requested ?l2" by (rule ext) (simp add: requested_def)
  have cons: "db_consistent ?d" by (simp add: db_consistent_def)
  have ids: "product_ids ?l1 = product_ids ?l2"
    by (simp add: product_ids_def product_quantities_def add_quantity_def)
  have r: "snd (create_order ?d ?l1)
     = Inr \<lparr>order_pk = 1, status = ''pending'',
           items = [\<lparr>item_id = 1, order_id = 1, item_product_id = 1, item_quantity = 3,
                     price_at_order = 3000\<rparr>,
                    \<lparr>item_id = 2, order_id = 1, item_product_id = 1, item_quantity = 3,
                     price_at_order = 3000\<rparr>]\<rparr>"
    by (simp add: create_order_def product_quantities_def add_quantity_def
          select_for_update_def load_items_def Let_def)
  have after: "products (fst (create_order ?d ?l2)) 1
     = Some \<lparr>name = ''P'', price = 3000, stock_quantity = 4\<rparr>"
    by (simp add: create_order_def product_quantities_def add_quantity_def
          select_for_update_def load_items_def Let_def)
  from duplicate_lines_as_summed_line [OF same sums cons]
  have "products (fst (create_order ?d ?l1)) = products (fst (create_order ?d ?l2))"
    by blast
  with same sums cons ids r after show ?thesis by blast
qed

section \<open>Later events\<close>

lemma kept_create_order:
  assumes "kept oid its d"
  shows "kept oid its (fst (create_order d lines))"
proof (cases "fulfillable d lines")
  case True
  from assms have cons: "db_consistent d" and lt: "oid < next_order_id d"
    and row: "orders d oid \<noteq> None" and its: "load_items d oid = its"
    by (simp_all add: kept_def)
  from create_order_success [OF True] obtain added where a:
    "create_order d lines =
       (d\<lparr>orders := (orders d)(next_order_id d \<mapsto> status_value PENDING),
          next_order_id := next_order_id d + 1,
          products := decremented lines (products d),
          order_items := order_items d @ added,
          next_item_id := next_item_id d + int (length added)\<rparr>,
        Inr \<lparr>order_pk = next_order_id d, status = status_value PENDING,
             items = filter (\<lambda>i. order_id i = next_order_id d) (order_items d @ added)\<rparr>)"
    "map order_id added = map (\<lambda>i. next_order_id d) lines"
    by blast
  have new: "order_id i = next_order_id d" if "i \<in> set added" for i
    using const_map_set [OF a(2) that] .
  have "db_consistent (fst (create_order d lines))"
    using cons new by (auto simp: a(1) db_consistent_def)
  moreover have "load_items (fst (create_order d lines)) oid = its"
    using other_items_loaded [OF lt a(2)] its by (simp add: a(1) load_items_def)
  moreover have "orders (fst (create_order d lines)) oid \<noteq> None"
    using row by (simp add: a(1))
  moreover have "oid < next_order_id (fst (create_order d lines))"
    using lt by (simp add: a(1))
  ultimately show ?thesis by (simp add: kept_def)
next
  case False
  from create_order_failure [OF False] obtain e where "create_order d lines = (d, Inl e)"
    by blast
  with assms show ?thesis by simp
qed

lemma kept_update_order_status:
  assumes "kept oid its d"
  shows "kept oid its (fst (update_order_status d k s))"
  using assms
  by (auto simp: update_order_status_def kept_def db_consistent_def load_items_def Let_def
        split: option.splits)

lemma kept_step: "kept oid its d \<Longrightarrow> kept oid its (step d ev)"
proof (cases ev)
  case (CreateOrder lines)
  assume "kept oid its d"
  then show ?thesis unfolding CreateOrder step.simps by (rule kept_create_order)
next
  case (UpdateOrderStatus k s)
  assume "kept oid its d"
  then show ?thesis unfolding UpdateOrderStatus step.simps by (rule kept_update_order_status)
next
  case (CreateProduct p)
  assume "kept oid its d"
  then show ?thesis
    by (simp add: CreateProduct create_product_def kept_def db_consistent_def load_items_def)
next
  case (ProductsWritten tbl)
  assume "kept oid its d"
  then show ?thesis
    by (simp add: ProductsWritten kept_def db_consistent_def load_items_def)
qed

lemma kept_run: "kept oid its d \<Longrightarrow> kept oid its (run d evs)"
  by (induction evs arbitrary: d) (simp_all add: kept_step)

lemma kept_get_order:
  "kept oid its d \<Longrightarrow> map_sum id items (get_order d oid) = Inr its"
  by (auto simp: kept_def get_order_def)

text \<open>
  Claim C9. When \<open>create_order\<close> succeeds, the \<open>price_at_order\<close> of each returned item
  is, line by line (duplicate lines included), the price of the line's product in the
  row loaded by the locking read of the same call. After any later events (orders
  created, statuses updated, products created, the products table rewritten), reading
  the order back gives the same items, field by field.
\<close>

theorem price_at_order_snapshot:
  assumes cons: "db_consistent d" and r: "snd (create_order d lines) = Inr r"
  shows "map (\<lambda>i. Some (price_at_order i)) (items r)
           = map (\<lambda>l. map_option price (select_for_update d (product_ids lines) (product_id l))) lines
     \<and> (\<forall>evs. map_sum id items (get_order (run (fst (create_order d lines)) evs) (order_pk r))
              = Inr (items r))"
proof -
  from r have "\<not> isl (snd (create_order d lines))" by simp
  then have ok: "fulfillable d lines" by (simp add: create_order_isl)
  from create_order_result [OF ok cons] obtain added where a:
    "create_order d lines =
       (d\<lparr>orders := (orders d)(next_order_id d \<mapsto> status_value PENDING),
          next_order_id := next_order_id d + 1,
          products := decremented lines (products d),
          order_items := order_items d @ added,
          next_item_id := next_item_id d + int (length added)\<rparr>,
        Inr \<lparr>order_pk = next_order_id d, status = status_value PENDING, items = added\<rparr>)"
    "map order_id added = map (\<lambda>i. next_order_id d) lines"
    "map (\<lambda>r. Some (price_at_order r)) added
          = map (\<lambda>i. map_option price (products d (product_id i))) lines"
    by blast
  from a(1) r have items: "items r = added" and pk: "order_pk r = next_order_id d" by auto
  have locked: "map (\<lambda>l. map_option price (select_for_update d (product_ids lines) (product_id l))) lines
      = map (\<lambda>i. map_option price (products d (product_id i))) lines"
    by (simp add: select_for_update_ids)
  have new: "order_id i = next_order_id d" if "i \<in> set added" for i
    using const_map_set [OF a(2) that] .
  have "db_consistent (fst (create_order d lines))"
    using cons new by (auto simp: a(1) db_consistent_def)
  moreover have "load_items (fst (create_order d lines)) (next_order_id d) = added"
    using own_items_loaded [OF cons a(2)] by (simp add: a(1) load_items_def)
  ultimately have "kept (order_pk r) (items r) (fst (create_order d lines))"
    by (simp add: kept_def items pk a(1))
  then have "map_sum id items (get_order (run (fst (create_order d lines)) evs) (order_pk r))
              = Inr (items r)" for evs
    by (intro kept_get_order kept_run)
  with a(3) locked items show ?thesis by simp
qed

theorem price_at_order_snapshot_witness:
  "db_consistent
      \<lparr>products = [1 \<mapsto> \<lparr>name = ''T'', price = 3000, stock_quantity = 50\<rparr>],
       orders = Map.empty, order_items = [],
       next_product_id = 2, next_order_id = 1, next_item_id = 1\<rparr>
   \<and> snd (create_order
      \<lparr>products = [1 \<mapsto> \<lparr>name = ''T'', price = 3000, stock_quantity = 50\<rparr>],
       orders = Map.empty, order_items = [],
       next_product_id = 2, next_order_id = 1, next_item_id = 1\<rparr>
      [\<lparr>product_id = 1, quantity = 3\<rparr>])
     = Inr \<lparr>order_pk = 1, status = ''pending'',
           items = [\<lparr>item_id = 1, order_id = 1, item_product_id = 1, item_quantity = 3,
                     price_at_order = 3000\<rparr>]\<rparr>
   \<and> map_sum id items (get_order (run (fst (create_order
      \<lparr>products = [1 \<mapsto> \<lparr>name = ''T'', price = 3000, stock_quantity = 50\<rparr>],
       orders = Map.empty, order_items = [],
       next_product_id = 2, next_order_id = 1, next_item_id = 1\<rparr>
      [\<lparr>product_id = 1, quantity = 3\<rparr>]))
        [ProductsWritten [1 \<mapsto> \<lparr>name = ''T'', price = 9900, stock_quantity = 47\<rparr>],
         CreateOrder [\<lparr>product_id = 1, quantity = 2\<rparr>],
         UpdateOrderStatus 1 SHIPPED]) 1)
     = Inr [\<lparr>item_id = 1, order_id = 1, item_product_id = 1, item_quantity = 3,
             price_at_order = 3000\<rparr>]"
proof -
  let ?d = "\<lparr>products = [1 \<mapsto> \<lparr>name = ''T'', price = 3000, stock_quantity = 50\<rparr>],
       orders = Map.empty, order_items = [],
       next_product_id = 2, next_order_id = 1, next_item_id = 1\<rparr>"
  let ?l = "[\<lparr>product_id = 1, quantity = 3\<rparr>]"
  let ?r = "\<lparr>order_pk = 1, status = ''pending'',
           items = [\<lparr>item_id = 1, order_id = 1, item_product_id = 1, item_quantity = 3,
                     price_at_order = 3000\<rparr>]\<rparr>"
  have cons: "db_consistent ?d" by (simp add: db_consistent_def)
  have r: "snd (create_order ?d ?l) = Inr ?r"
    by (simp add: create_order_def product_quantities_def add_quantity_def
          select_for_update_def load_items_def Let_def)
  from price_at_order_snapshot [OF cons r]
  have "map_sum id items (get_order (run (fst (create_order ?d ?l))
        [ProductsWritten [1 \<mapsto> \<lparr>name = ''T'', price = 9900, stock_quantity = 47\<rparr>],
         CreateOrder [\<lparr>product_id = 1, quantity = 2\<rparr>],
         UpdateOrderStatus 1 SHIPPED]) (order_pk ?r)) = Inr (items ?r)"
    by blast
  with cons r show ?thesis by simp
qed

section \<open>Calls one after another\<close>

text \<open>
  When the calls run one after another, \<open>n\<close> orders of one unit each against a stock
  \<open>S\<close> succeed \<open>min n S\<close> times and leave the stock at \<open>S - min n S\<close>. That the
  database makes concurrent sessions take their turns on a locked row is its own
  doing and not part of this development.
\<close>

lemma fulfillable_unit:
  "products d k = Some p \<Longrightarrow>
     fulfillable d [\<lparr>product_id = k, quantity = 1\<rparr>] \<longleftrightarrow> 1 \<le> stock_quantity p"
  by (simp add: fulfillable_def requested_def)

lemma serial_orders_outcome:
  assumes "products d k = Some p" and "0 \<le> stock_quantity p"
  shows "snd (serial_orders n k d) = min n (nat (stock_quantity p))
     \<and> map_option stock_quantity (products (fst (serial_orders n k d)) k)
         = Some (stock_quantity p - int (min n (nat (stock_quantity p))))"
  using assms
proof (induction n arbitrary: d p)
  case 0
  then show ?case by simp
next
  case (Suc n)
  let ?l = "[\<lparr>product_id = k, quantity = 1\<rparr>]"
  show ?case
  proof (cases "1 \<le> stock_quantity p")
    case True
    with Suc.prems have ok: "fulfillable d ?l" by (simp add: fulfillable_unit)
    from create_order_success [OF ok] obtain d' r where c: "create_order d ?l = (d', Inr r)"
      by blast
    have "products d' = decremented ?l (products d)"
      using create_order_products [of d ?l] ok c by simp
    with Suc.prems have p': "products d' k = Some (p\<lparr>stock_quantity := stock_quantity p - 1\<rparr>)"
      by (simp add: decremented_def requested_def)
    have nn: "0 \<le> stock_quantity (p\<lparr>stock_quantity := stock_quantity p - 1\<rparr>)"
      using True by simp
    from Suc.IH [OF p' nn] True c show ?thesis
      by (auto simp: min_def split: prod.splits)
  next
    case False
    with Suc.prems have z: "stock_quantity p = 0" by simp
    from False Suc.prems have "\<not> fulfillable d ?l" by (simp add: fulfillable_unit)
    from create_order_failure [OF this] obtain e where c: "create_order d ?l = (d, Inl e)"
      by blast
    from Suc.IH [OF Suc.prems] z c show ?thesis by simp
  qed
qed

end
